theory Spec2Isabelle
  imports Complex_Main
begin

section \<open>Conventions of the embedding\<close>

text \<open>
  The program is the sticker part of \<^verbatim>\<open>src/index.js\<close>: \<^verbatim>\<open>processSVG\<close>,
  \<^verbatim>\<open>drawTextWithEmoji\<close>, \<^verbatim>\<open>createSticker\<close> with its inner function
  \<^verbatim>\<open>findOptimalFontSize\<close>, and the \<^verbatim>\<open>/mkstr\<close> branch of the message handler.

  \<^item> A JavaScript number is a \<open>real\<close>, the value of a finite double; infinities and NaN,
    which no quantity of the program reaches, have no counterpart. In the layout solver,
    where the comparisons of sums and products decide the line breaks and the font size,
    every \<^verbatim>\<open>+\<close>, \<^verbatim>\<open>-\<close> and \<^verbatim>\<open>*\<close> goes through an arithmetic \<open>a\<close> (a record of the three
    operations): the definitions and most theorems are for every arithmetic, and \<open>ieee\<close> is
    the arithmetic of doubles, each result rounded to the nearest double, ties to even. A
    decimal literal of the program is the double it denotes. In the line renderer, where
    no branch compares numbers, the arithmetic is exact. Font sizes are the integers the
    loop produces (\<open>120, 118, \<dots>\<close>) and are \<open>nat\<close>.
  \<^item> A JavaScript string is a \<open>string\<close>, the bytes of its UTF-8 encoding; the white space
    of \<^verbatim>\<open>trim\<close> and of the regular expression \<^verbatim>\<open>\s\<close> is the white space and the line
    terminators of ECMAScript.
  \<^item> What the canvas library measures is a parameter: \<open>measureText fs s\<close> is
    \<^verbatim>\<open>ctx.measureText(s).width\<close> while \<^verbatim>\<open>ctx.font\<close> is the bold font of \<open>fs\<close> pixels.
\<close>

section \<open>Strings\<close>

text \<open>The ASCII white space: tab, line feed, vertical tab, form feed, carriage return, space.\<close>

definition isSpace :: "char \<Rightarrow> bool" where
  "isSpace c = (c = CHR 0x09 \<or> c = CHR 0x0A \<or> c = CHR 0x0B \<or> c = CHR 0x0C \<or> c = CHR 0x0D \<or> c = CHR 0x20)"

definition startsWith :: "string \<Rightarrow> string \<Rightarrow> bool" where
  "startsWith s pat = (take (length pat) s = pat)"

text \<open>
  The other white space characters, in UTF-8: U+00A0, U+1680, U+2000 to U+200A, U+2028,
  U+2029, U+202F, U+205F, U+3000 and U+FEFF.
\<close>

definition unicodeSpaces :: "string list" where
  "unicodeSpaces =
     [[CHR 0xC2, CHR 0xA0], [CHR 0xE1, CHR 0x9A, CHR 0x80],
      [CHR 0xE2, CHR 0x80, CHR 0x80], [CHR 0xE2, CHR 0x80, CHR 0x81],
      [CHR 0xE2, CHR 0x80, CHR 0x82], [CHR 0xE2, CHR 0x80, CHR 0x83],
      [CHR 0xE2, CHR 0x80, CHR 0x84], [CHR 0xE2, CHR 0x80, CHR 0x85],
      [CHR 0xE2, CHR 0x80, CHR 0x86], [CHR 0xE2, CHR 0x80, CHR 0x87],
      [CHR 0xE2, CHR 0x80, CHR 0x88], [CHR 0xE2, CHR 0x80, CHR 0x89],
      [CHR 0xE2, CHR 0x80, CHR 0x8A], [CHR 0xE2, CHR 0x80, CHR 0xA8],
      [CHR 0xE2, CHR 0x80, CHR 0xA9], [CHR 0xE2, CHR 0x80, CHR 0xAF],
      [CHR 0xE2, CHR 0x81, CHR 0x9F], [CHR 0xE3, CHR 0x80, CHR 0x80],
      [CHR 0xEF, CHR 0xBB, CHR 0xBF]]"

text \<open>
  The number of bytes of the white space character that a string begins with, and of the
  one it ends with; 0 when there is none.
\<close>

definition spaceAt :: "string \<Rightarrow> nat" where
  "spaceAt s =
     (case s of
        [] \<Rightarrow> 0
      | c # cs \<Rightarrow>
          if isSpace c then 1
          else (case find (startsWith s) unicodeSpaces of Some u \<Rightarrow> length u | None \<Rightarrow> 0))"

definition spaceAtEnd :: "string \<Rightarrow> nat" where
  "spaceAtEnd s =
     (case rev s of
        [] \<Rightarrow> 0
      | c # cs \<Rightarrow>
          if isSpace c then 1
          else (case find (\<lambda>u. startsWith (rev s) (rev u)) unicodeSpaces of
                  Some u \<Rightarrow> length u
                | None \<Rightarrow> 0))"

text \<open>\<^verbatim>\<open>s.trim()\<close>: the white space at the start is removed, then the white space at the end.\<close>

function trimStart :: "string \<Rightarrow> string" where
  "trimStart s = (if spaceAt s = 0 then s else trimStart (drop (spaceAt s) s))"
  by pat_completeness auto
termination
proof (relation "measure length")
  show "wf (measure length)" by simp
next
  fix s :: string
  assume a: "spaceAt s \<noteq> 0"
  then have "s \<noteq> []" by (auto simp: spaceAt_def)
  with a show "(drop (spaceAt s) s, s) \<in> measure length" by simp
qed

function trimEnd :: "string \<Rightarrow> string" where
  "trimEnd s = (if spaceAtEnd s = 0 then s else trimEnd (take (length s - spaceAtEnd s) s))"
  by pat_completeness auto
termination
proof (relation "measure length")
  show "wf (measure length)" by simp
next
  fix s :: string
  assume a: "spaceAtEnd s \<noteq> 0"
  then have "s \<noteq> []" by (auto simp: spaceAtEnd_def)
  with a show "(take (length s - spaceAtEnd s) s, s) \<in> measure length" by simp
qed

declare trimStart.simps [simp del] trimEnd.simps [simp del]

definition trim :: "string \<Rightarrow> string" where
  "trim s = trimEnd (trimStart s)"

text \<open>\<^verbatim>\<open>s.includes(pat)\<close>: \<open>pat\<close> occurs in \<open>s\<close> as a contiguous substring.\<close>

fun includesStr :: "string \<Rightarrow> string \<Rightarrow> bool" where
  "includesStr [] pat = (pat = [])"
| "includesStr (c # cs) pat = (startsWith (c # cs) pat \<or> includesStr cs pat)"

text \<open>
  \<^verbatim>\<open>s.replace(pat, rep)\<close> for a string pattern: the first occurrence only. (The replacement
  strings of the program contain no \<^verbatim>\<open>$\<close>, so no replacement pattern is expanded.)
\<close>

fun replaceFirst :: "string \<Rightarrow> string \<Rightarrow> string \<Rightarrow> string" where
  "replaceFirst [] pat rep = (if pat = [] then rep else [])"
| "replaceFirst (c # cs) pat rep =
     (if startsWith (c # cs) pat then rep @ drop (length pat) (c # cs)
      else c # replaceFirst cs pat rep)"

text \<open>
  \<^verbatim>\<open>s.split(/\s+/)\<close>: the pieces between the maximal runs of white space, an empty piece
  before a leading run and after a trailing one, and the one piece \<^verbatim>\<open>""\<close> for the empty
  string. \<open>cur\<close> is the piece being read, reversed.
\<close>

function splitAux :: "string \<Rightarrow> string \<Rightarrow> string list" where
  "splitAux cur [] = [rev cur]"
| "splitAux cur (c # cs) =
     (if spaceAt (c # cs) \<noteq> 0 then rev cur # splitAux [] (trimStart (c # cs))
      else splitAux (c # cur) cs)"
  by pat_completeness auto
termination
proof (relation "measure (\<lambda>(cur, s). length s)")
  show "wf (measure (\<lambda>(cur, s). length s))" by simp
next
  fix cur :: string and c cs
  assume a: "spaceAt (c # cs) \<noteq> 0"
  have le: "length (trimStart s) \<le> length s" for s
  proof (induction s rule: trimStart.induct)
    case (1 s)
    show ?case
    proof (cases "spaceAt s = 0")
      case True
      then show ?thesis by (simp add: trimStart.simps [of s])
    next
      case False
      from "1.IH" [OF False] have "length (trimStart (drop (spaceAt s) s)) \<le> length s" by simp
      with False show ?thesis by (simp add: trimStart.simps [of s])
    qed
  qed
  have "trimStart (c # cs) = trimStart (drop (spaceAt (c # cs)) (c # cs))"
    using a by (simp add: trimStart.simps [of "c # cs"])
  also have "length \<dots> \<le> length (drop (spaceAt (c # cs)) (c # cs))" by (rule le)
  also have "\<dots> < length (c # cs)" using a by simp
  finally show "(([], trimStart (c # cs)), (cur, c # cs)) \<in> measure (\<lambda>(cur, s). length s)"
    by simp
next
  fix cur :: string and c cs
  assume "\<not> spaceAt (c # cs) \<noteq> 0"
  show "((c # cur, cs), (cur, c # cs)) \<in> measure (\<lambda>(cur, s). length s)" by simp
qed

definition splitWhitespace :: "string \<Rightarrow> string list" where
  "splitWhitespace s = splitAux [] s"

text \<open>\<^verbatim>\<open>line.join(' ')\<close>.\<close>

fun joinSpace :: "string list \<Rightarrow> string" where
  "joinSpace [] = []"
| "joinSpace [w] = w"
| "joinSpace (w # v # ws) = w @ '' '' @ joinSpace (v # ws)"

text \<open>The decimal digits of a number, as the template literal \<^verbatim>\<open>${size}\<close> prints an integer.\<close>

fun showNat :: "nat \<Rightarrow> string" where
  "showNat n =
     (if n < 10 then [''0123456789'' ! n]
      else showNat (n div 10) @ [''0123456789'' ! (n mod 10)])"

declare showNat.simps [simp del]

section \<open>Glyph markup: \<^verbatim>\<open>processSVG\<close>\<close>

text \<open>\<^verbatim>\<open>processSVG(svgString, size)\<close>; the parameter \<^verbatim>\<open>size\<close> is \<open>sz\<close> here.\<close>

definition processSVG :: "string \<Rightarrow> nat \<Rightarrow> string" where
  "processSVG svgString sz =
     (if \<not> includesStr svgString ''width='' \<and> \<not> includesStr svgString ''height='' then
        replaceFirst svgString ''<svg''
          (''<svg width=\"'' @ showNat sz @ ''\" height=\"'' @ showNat sz @ ''\"'')
      else svgString)"

section \<open>The line renderer: \<^verbatim>\<open>drawTextWithEmoji\<close>\<close>

text \<open>
  The drawing context: the properties the program sets, and the list of what has been
  drawn, in order. \<open>BoldArialNarrow n\<close> is the font string
  \<^verbatim>\<open>bold ${n}px "Arial Narrow", Arial, sans-serif\<close>.
\<close>

datatype fontSpec = DefaultFont | BoldArialNarrow nat

datatype drawOp =
    FillRect string real real real real
  | FillText string real real fontSpec string
  | DrawImage string real real real real

text \<open>
  \<open>FillRect style x y w h\<close>; \<open>FillText text x y font style\<close>, with the font and the
  fill style in force at the call; \<open>DrawImage markup x y w h\<close>, the image being named
  by the markup it was loaded from.
\<close>

record context2d =
  font :: fontSpec
  fillStyle :: string
  textAlign :: string
  textBaseline :: string
  drawn :: "drawOp list"

text \<open>
  What lies outside the program. \<open>textWidth\<close> is the text measurement of the canvas;
  \<open>twemojiParts\<close> is \<^verbatim>\<open>twemoji.parse\<close> followed by the split at the image tags and the
  removal of the empty parts; \<open>fetch n url\<close> is the body text that the \<open>n\<close>-th request of
  the run obtains for \<open>url\<close>, \<open>None\<close> when \<^verbatim>\<open>fetchFn\<close> or \<^verbatim>\<open>res.text()\<close> throws; \<open>decode\<close>
  says whether \<^verbatim>\<open>loadImage\<close> accepts a markup; \<open>encode\<close> says whether the conversion of
  the canvas to WebP succeeds.
\<close>

record env =
  textWidth :: "nat \<Rightarrow> string \<Rightarrow> real"
  twemojiParts :: "string \<Rightarrow> string list"
  fetch :: "nat \<Rightarrow> string \<Rightarrow> string option"
  decode :: "string \<Rightarrow> bool"
  encode :: "drawOp list \<Rightarrow> bool"

text \<open>
  \<^verbatim>\<open>part.match(/src="([^"]+)"/)\<close>: the first place where \<^verbatim>\<open>src="\<close> is followed by one or
  more characters other than the double quote and then by a double quote; the value is
  the captured group.
\<close>

fun matchSrc :: "string \<Rightarrow> string option" where
  "matchSrc [] = None"
| "matchSrc (c # cs) =
     (let s = c # cs;
          body = drop 5 s;
          url = takeWhile (\<lambda>d. d \<noteq> CHR 0x22) body;
          rest = dropWhile (\<lambda>d. d \<noteq> CHR 0x22) body
      in if startsWith s ''src=\"'' \<and> url \<noteq> [] \<and> rest \<noteq> [] then Some url
         else matchSrc cs)"

text \<open>\<^verbatim>\<open>Math.round\<close>: the nearest integer, a half rounded up.\<close>

definition mathRound :: "real \<Rightarrow> int" where
  "mathRound x = \<lfloor>x + 1 / 2\<rfloor>"

text \<open>\<^verbatim>\<open>Math.round(fontSize * 0.9)\<close>; it is not negative, as \<open>fontSize\<close> is not.\<close>

definition emojiSizeOf :: "nat \<Rightarrow> nat" where
  "emojiSizeOf fontSize = nat (mathRound (real fontSize * 0.9))"

text \<open>The UTF-8 bytes of the box character U+25A1 that the fallback draws.\<close>

definition boxGlyph :: string where
  "boxGlyph = [CHR 0xE2, CHR 0x96, CHR 0xA1]"

text \<open>
  The state of the loop over the parts: the cursor, the context, and the number of
  requests made so far.
\<close>

record renderState =
  cursorX :: real
  ctx :: context2d
  requests :: nat

text \<open>The \<^verbatim>\<open>catch\<close> block.\<close>

definition drawPlaceholder :: "real \<Rightarrow> nat \<Rightarrow> renderState \<Rightarrow> renderState" where
  "drawPlaceholder y fontSize s =
     s\<lparr>ctx := (ctx s)\<lparr>font := BoldArialNarrow fontSize,
                      drawn := drawn (ctx s) @
                        [FillText boxGlyph (cursorX s) y (BoldArialNarrow fontSize) (fillStyle (ctx s))]\<rparr>,
       cursorX := cursorX s + real fontSize * 0.8\<rparr>"

text \<open>The body of \<^verbatim>\<open>for (let part of parts)\<close>.\<close>

definition drawPart :: "env \<Rightarrow> real \<Rightarrow> nat \<Rightarrow> renderState \<Rightarrow> string \<Rightarrow> renderState" where
  "drawPart e y fontSize s part =
     (if startsWith part ''<img'' then
        (case matchSrc part of
           None \<Rightarrow> s
         | Some url \<Rightarrow>
             (let s1 = s\<lparr>requests := Suc (requests s)\<rparr> in
              case fetch e (requests s) url of
                None \<Rightarrow> drawPlaceholder y fontSize s1
              | Some body \<Rightarrow>
                  (let emojiSize = emojiSizeOf fontSize;
                       svgString = processSVG body emojiSize
                   in if decode e svgString then
                        (let emojiY = y - (real fontSize * 0.7) in
                         s1\<lparr>ctx := (ctx s1)\<lparr>drawn := drawn (ctx s1) @
                               [DrawImage svgString (cursorX s1) emojiY (real emojiSize) (real emojiSize)]\<rparr>,
                            cursorX := cursorX s1 + real emojiSize * 0.8\<rparr>)
                      else drawPlaceholder y fontSize s1)))
      else
        s\<lparr>ctx := (ctx s)\<lparr>font := BoldArialNarrow fontSize,
                         fillStyle := ''#000'',
                         textBaseline := ''alphabetic'',
                         drawn := drawn (ctx s) @
                           [FillText part (cursorX s) y (BoldArialNarrow fontSize) ''#000'']\<rparr>,
          cursorX := cursorX s + textWidth e fontSize part\<rparr>)"

fun drawParts :: "env \<Rightarrow> real \<Rightarrow> nat \<Rightarrow> renderState \<Rightarrow> string list \<Rightarrow> renderState" where
  "drawParts e y fontSize s [] = s"
| "drawParts e y fontSize s (part # parts) = drawParts e y fontSize (drawPart e y fontSize s part) parts"

text \<open>
  \<^verbatim>\<open>drawTextWithEmoji(ctx, text, x, y, fontSize)\<close>. The JavaScript function returns the
  final \<^verbatim>\<open>cursorX\<close> and leaves its drawing in \<^verbatim>\<open>ctx\<close>; the model returns the final state,
  which holds both. \<open>c\<close> is the context and \<open>n\<close> the number of requests at the call.
\<close>

definition drawTextWithEmoji :: "env \<Rightarrow> context2d \<Rightarrow> nat \<Rightarrow> string \<Rightarrow> real \<Rightarrow> real \<Rightarrow> nat \<Rightarrow> renderState" where
  "drawTextWithEmoji e c n text x y fontSize =
     drawParts e y fontSize \<lparr>cursorX = x, ctx = c, requests = n\<rparr> (twemojiParts e text)"

section \<open>The arithmetic of doubles\<close>

text \<open>
  The operations \<^verbatim>\<open>+\<close>, \<^verbatim>\<open>-\<close> and \<^verbatim>\<open>*\<close> of the layout solver, as functions on the values of
  doubles.
\<close>

record arith =
  numAdd :: "real \<Rightarrow> real \<Rightarrow> real"
  numSub :: "real \<Rightarrow> real \<Rightarrow> real"
  numMul :: "real \<Rightarrow> real \<Rightarrow> real"

text \<open>
  The binade of a positive number: for \<open>x \<ge> 1\<close> the \<open>e\<close> with \<open>2 ^ e \<le> x < 2 ^ (e + 1)\<close>,
  at most the largest exponent 1023 of a double; for \<open>x < 1\<close> the \<open>e\<close> with
  \<open>1 / 2 ^ e \<le> x < 2 / 2 ^ e\<close>, at most 1022, the exponent of the subnormal doubles. The
  first argument bounds the search.
\<close>

fun binadeUp :: "nat \<Rightarrow> real \<Rightarrow> nat" where
  "binadeUp 0 x = 0"
| "binadeUp (Suc k) x = (if x < 2 then 0 else Suc (binadeUp k (x / 2)))"

fun binadeDown :: "nat \<Rightarrow> real \<Rightarrow> nat" where
  "binadeDown 0 x = 0"
| "binadeDown (Suc k) x = (if 1 \<le> x then 0 else Suc (binadeDown k (x * 2)))"

text \<open>The distance between neighbouring doubles at a positive number: 52 bits below its binade.\<close>

definition ulp :: "real \<Rightarrow> real" where
  "ulp x =
     (if 1 \<le> x then 2 ^ binadeUp 1023 x / 2 ^ 52
      else 1 / (2 ^ binadeDown 1022 x * 2 ^ 52))"

definition roundHalfEven :: "real \<Rightarrow> int" where
  "roundHalfEven m =
     (let f = \<lfloor>m\<rfloor> in
      if m - of_int f < 1 / 2 then f
      else if 1 / 2 < m - of_int f then f + 1
      else if even f then f else f + 1)"

text \<open>
  The double nearest to a number, ties to the even significand. (A number beyond the
  largest double, which rounds to an infinity, is outside the model.)
\<close>

definition toDouble :: "real \<Rightarrow> real" where
  "toDouble x =
     (if x = 0 then 0
      else sgn x * (of_int (roundHalfEven (\<bar>x\<bar> / ulp \<bar>x\<bar>)) * ulp \<bar>x\<bar>))"

definition ieee :: arith where
  "ieee = \<lparr>numAdd = (\<lambda>x y. toDouble (x + y)),
           numSub = (\<lambda>x y. toDouble (x - y)),
           numMul = (\<lambda>x y. toDouble (x * y))\<rparr>"

text \<open>The doubles that the literals \<^verbatim>\<open>0.05\<close> and \<^verbatim>\<open>1.2\<close> denote.\<close>

definition double_0_05 :: real where
  "double_0_05 = 3602879701896397 / 2 ^ 56"

definition double_1_2 :: real where
  "double_1_2 = 5404319552844595 / 2 ^ 52"

section \<open>The layout solver: \<^verbatim>\<open>findOptimalFontSize\<close>\<close>

definition canvasWidth :: real where
  "canvasWidth = 512"

definition canvasHeight :: real where
  "canvasHeight = 512"

text \<open>
  The constants of \<^verbatim>\<open>findOptimalFontSize\<close>: its own \<^verbatim>\<open>margin\<close> (here \<open>solverMargin\<close>),
  \<^verbatim>\<open>maxWidth\<close> and \<^verbatim>\<open>maxHeight\<close>.
\<close>

definition solverMargin :: "arith \<Rightarrow> real" where
  "solverMargin a = numMul a canvasWidth double_0_05"

definition maxWidth :: "arith \<Rightarrow> real" where
  "maxWidth a = numSub a canvasWidth (numMul a (solverMargin a) 2)"

definition maxHeight :: "arith \<Rightarrow> real" where
  "maxHeight a = numSub a canvasHeight (numMul a (solverMargin a) 2)"

text \<open>The value \<^verbatim>\<open>{ fontSize, lines, lineHeight }\<close> that the solver returns.\<close>

record layout =
  fontSize :: nat
  lines :: "string list list"
  lineHeight :: real

text \<open>
  The variables of one packing pass: \<^verbatim>\<open>lines\<close> (here \<open>linesAcc\<close>), \<^verbatim>\<open>currentLine\<close>,
  \<^verbatim>\<open>currentLineWidth\<close> and \<^verbatim>\<open>canFitAllWords\<close>.
\<close>

record packing =
  linesAcc :: "string list list"
  currentLine :: "string list"
  currentLineWidth :: real
  canFitAllWords :: bool

definition packingInit :: packing where
  "packingInit = \<lparr>linesAcc = [], currentLine = [], currentLineWidth = 0, canFitAllWords = True\<rparr>"

text \<open>
  The \<^verbatim>\<open>for (let word of words)\<close> loop inside the \<^verbatim>\<open>while\<close> loop. The \<^verbatim>\<open>break\<close> on an
  oversized word leaves the remaining words unread.
\<close>

fun packWords :: "arith \<Rightarrow> (string \<Rightarrow> real) \<Rightarrow> real \<Rightarrow> string list \<Rightarrow> packing \<Rightarrow> packing" where
  "packWords a width spaceWidth [] p = p"
| "packWords a width spaceWidth (word # rest) p =
     (if width word > maxWidth a then p\<lparr>canFitAllWords := False\<rparr>
      else if numAdd a (currentLineWidth p) (width word) \<le> maxWidth a
              \<or> length (currentLine p) = 0 then
        packWords a width spaceWidth rest
          (p\<lparr>currentLine := currentLine p @ [word],
             currentLineWidth :=
               numAdd a (currentLineWidth p) (numAdd a (width word) spaceWidth)\<rparr>)
      else
        packWords a width spaceWidth rest
          (p\<lparr>linesAcc := linesAcc p @ [currentLine p],
             currentLine := [word],
             currentLineWidth := numAdd a (width word) spaceWidth\<rparr>))"

text \<open>The \<^verbatim>\<open>for\<close> loop of the fallback: the same, without the test on the word alone.\<close>

fun packWordsFallback :: "arith \<Rightarrow> (string \<Rightarrow> real) \<Rightarrow> real \<Rightarrow> string list \<Rightarrow> packing \<Rightarrow> packing" where
  "packWordsFallback a width spaceWidth [] p = p"
| "packWordsFallback a width spaceWidth (word # rest) p =
     (if numAdd a (currentLineWidth p) (width word) \<le> maxWidth a
         \<or> length (currentLine p) = 0 then
        packWordsFallback a width spaceWidth rest
          (p\<lparr>currentLine := currentLine p @ [word],
             currentLineWidth :=
               numAdd a (currentLineWidth p) (numAdd a (width word) spaceWidth)\<rparr>)
      else
        packWordsFallback a width spaceWidth rest
          (p\<lparr>linesAcc := linesAcc p @ [currentLine p],
             currentLine := [word],
             currentLineWidth := numAdd a (width word) spaceWidth\<rparr>))"

text \<open>\<^verbatim>\<open>if (currentLine.length > 0) lines.push(currentLine)\<close>, then the value of \<^verbatim>\<open>lines\<close>.\<close>

definition pushLast :: "packing \<Rightarrow> string list list" where
  "pushLast p = (if length (currentLine p) > 0 then linesAcc p @ [currentLine p] else linesAcc p)"

text \<open>
  The body of the \<^verbatim>\<open>while\<close> loop at one font size: \<open>Some\<close> is the \<^verbatim>\<open>return\<close> inside the
  loop, \<open>None\<close> reaches \<^verbatim>\<open>fontSize -= 2\<close>.
\<close>

definition tryFontSize :: "arith \<Rightarrow> (nat \<Rightarrow> string \<Rightarrow> real) \<Rightarrow> string list \<Rightarrow> nat \<Rightarrow> layout option" where
  "tryFontSize a measureText words fs =
     (let spaceWidth = measureText fs '' '';
          p = packWords a (measureText fs) spaceWidth words packingInit;
          ls = pushLast p;
          lh = numMul a (real fs) double_1_2;
          totalHeight = numMul a (real (length ls)) lh
      in if canFitAllWords p \<and> totalHeight \<le> maxHeight a
         then Some \<lparr>fontSize = fs, lines = ls, lineHeight = lh\<rparr>
         else None)"

text \<open>
  \<^verbatim>\<open>while (fontSize > 10) { ... fontSize -= 2; }\<close>, from a given \<^verbatim>\<open>fontSize\<close>. (The font
  sizes are integers far below \<open>2 ^ 53\<close>: their subtraction is exact in doubles.)
\<close>

function fontSizeLoop :: "arith \<Rightarrow> (nat \<Rightarrow> string \<Rightarrow> real) \<Rightarrow> string list \<Rightarrow> nat \<Rightarrow> layout option" where
  "fontSizeLoop a measureText words fs =
     (if fs > 10 then
        (case tryFontSize a measureText words fs of
           Some sol \<Rightarrow> Some sol
         | None \<Rightarrow> fontSizeLoop a measureText words (fs - 2))
      else None)"
  by pat_completeness auto
termination
  by (relation "measure (\<lambda>(a, measureText, words, fs). fs)") auto

declare fontSizeLoop.simps [simp del]

text \<open>The code after the loop: the layout forced at 10 pixels.\<close>

definition fallbackLayout :: "arith \<Rightarrow> (nat \<Rightarrow> string \<Rightarrow> real) \<Rightarrow> string list \<Rightarrow> layout" where
  "fallbackLayout a measureText words =
     (let spaceWidth = measureText 10 '' '';
          p = packWordsFallback a (measureText 10) spaceWidth words packingInit
      in \<lparr>fontSize = 10, lines = pushLast p, lineHeight = 12\<rparr>)"

definition findOptimalFontSize :: "arith \<Rightarrow> (nat \<Rightarrow> string \<Rightarrow> real) \<Rightarrow> string list \<Rightarrow> layout" where
  "findOptimalFontSize a measureText words =
     (case fontSizeLoop a measureText words 120 of
        Some sol \<Rightarrow> sol
      | None \<Rightarrow> fallbackLayout a measureText words)"

section \<open>The compositor: \<^verbatim>\<open>createSticker\<close> and the \<^verbatim>\<open>/mkstr\<close> command\<close>

text \<open>
  What a call sends: nothing (the early \<^verbatim>\<open>return\<close>), the sticker (named by what was drawn
  on the canvas), the failure text of the \<^verbatim>\<open>catch\<close> block, or the usage text of the
  command.
\<close>

datatype outcome = NoOp | SendSticker "drawOp list" | SendFailure | SendUsage

text \<open>The \<^verbatim>\<open>margin\<close> of \<^verbatim>\<open>createSticker\<close>, in the exact arithmetic of the renderer.\<close>

definition margin :: real where
  "margin = canvasWidth * 0.05"

text \<open>
  The \<^verbatim>\<open>for (let i = 0; i < lines.length; i++)\<close> loop, from index \<open>i\<close>; \<open>fs\<close> and \<open>lh\<close>
  are \<^verbatim>\<open>fontSize\<close> and \<^verbatim>\<open>lineHeight\<close>, \<open>cn\<close> is the context with the number of requests.
\<close>

fun drawLines :: "env \<Rightarrow> nat \<Rightarrow> real \<Rightarrow> real \<Rightarrow> nat \<Rightarrow> string list list \<Rightarrow> context2d \<times> nat \<Rightarrow> context2d \<times> nat" where
  "drawLines e fs startY lh i [] cn = cn"
| "drawLines e fs startY lh i (line # rest) cn =
     (let lineText = joinSpace line;
          x = margin;
          y = startY + (real i * lh);
          s = drawTextWithEmoji e (fst cn) (snd cn) lineText x y fs
      in drawLines e fs startY lh (Suc i) rest (ctx s, requests s))"

text \<open>
  \<^verbatim>\<open>createSticker(sock, from, text)\<close>. The solver runs in the arithmetic of doubles. After
  \<^verbatim>\<open>findOptimalFontSize\<close> the font of the context is the one of the size it returns (the
  last one the search has set).
\<close>

definition createSticker :: "env \<Rightarrow> string \<Rightarrow> outcome" where
  "createSticker e text =
     (let c0 = \<lparr>font = DefaultFont, fillStyle = ''#000'', textAlign = ''left'',
                textBaseline = ''alphabetic'',
                drawn = [FillRect ''#fff'' 0 0 canvasWidth canvasHeight]\<rparr>;
          words = splitWhitespace (trim text)
      in if length words = 0 then NoOp
         else
           (let sol = findOptimalFontSize ieee (textWidth e) words;
                c1 = c0\<lparr>font := BoldArialNarrow (fontSize sol)\<rparr>;
                startY = margin + real (fontSize sol);
                c2 = fst (drawLines e (fontSize sol) startY (lineHeight sol) 0 (lines sol) (c1, 0))
            in if encode e (drawn c2) then SendSticker (drawn c2) else SendFailure))"

text \<open>
  The quoted message of a reply, with its two optional texts, and the JavaScript
  \<^verbatim>\<open>a || b\<close> on values that are a string or \<^verbatim>\<open>undefined\<close>: \<open>a\<close> when it is a non-empty
  string, else \<open>b\<close>.
\<close>

record quotedMessage =
  conversation :: "string option"
  extendedText :: "string option"

definition truthy :: "string option \<Rightarrow> bool" where
  "truthy a = (case a of None \<Rightarrow> False | Some t \<Rightarrow> t \<noteq> [])"

definition orElse :: "string option \<Rightarrow> string option \<Rightarrow> string option" where
  "orElse a b = (if truthy a then a else b)"

text \<open>The branch \<^verbatim>\<open>else if (text.startsWith("/mkstr"))\<close> of the message handler.\<close>

definition handleMkstr :: "env \<Rightarrow> string \<Rightarrow> quotedMessage option \<Rightarrow> outcome" where
  "handleMkstr e text isReply =
     (let stickerText0 = trim (replaceFirst text ''/mkstr'' []);
          stickerText =
            (case isReply of
               Some q \<Rightarrow>
                 if stickerText0 = [] then
                   (let quotedMsg = orElse (conversation q) (extendedText q)
                    in case orElse quotedMsg (Some ''Teks kosong'') of
                         Some t \<Rightarrow> t
                       | None \<Rightarrow> [])
                 else stickerText0
             | None \<Rightarrow> stickerText0)
      in if stickerText \<noteq> [] then createSticker e stickerText else SendUsage)"

section \<open>The specification's vocabulary\<close>

text \<open>
  The quantities and the packing rule in the words of the specification, to compare the
  program with. The margin fraction, the usable width and the usable height are exact
  numbers; in the arithmetic of doubles both the formula of the specification and the
  expression of the program evaluate to the double nearest to them, which is
  \<open>maxWidth ieee = maxHeight ieee\<close> (lemma \<open>usable_ieee\<close>).
\<close>

definition marginFraction :: real where
  "marginFraction = 0.05"

definition usableWidth :: real where
  "usableWidth = canvasWidth * (1 - 2 * marginFraction)"

definition usableHeight :: real where
  "usableHeight = canvasHeight * (1 - 2 * marginFraction)"

text \<open>The candidate font sizes, in the order in which the search visits them.\<close>

definition candidateSizes :: "nat list" where
  "candidateSizes = map (\<lambda>k. 120 - 2 * k) [0..<55]"

definition candidatesBelow :: "nat \<Rightarrow> nat list" where
  "candidatesBelow fs = filter (\<lambda>c. c < fs) candidateSizes"

text \<open>
  The greedy rule. The current line comes with its accumulated width \<open>acc\<close>: 0 for the
  empty line at the start; a word that joins the line adds its width and the width of a
  space; the line that a word starts has the width of the word and of a space. A word joins
  the current line if and only if the line is empty or the accumulated width plus the
  width of the word is at most the usable width, as the arithmetic \<open>a\<close> has it; otherwise
  the line is closed and the word starts the next one.
\<close>

fun greedyFrom :: "arith \<Rightarrow> (string \<Rightarrow> real) \<Rightarrow> real \<Rightarrow> string list list \<Rightarrow> string list \<Rightarrow> real \<Rightarrow> string list \<Rightarrow> string list list" where
  "greedyFrom a width spaceWidth closedLines line acc [] =
     (if line = [] then closedLines else closedLines @ [line])"
| "greedyFrom a width spaceWidth closedLines line acc (w # ws) =
     (if line = [] \<or> numAdd a acc (width w) \<le> maxWidth a
      then greedyFrom a width spaceWidth closedLines (line @ [w])
             (numAdd a acc (numAdd a (width w) spaceWidth)) ws
      else greedyFrom a width spaceWidth (closedLines @ [line]) [w]
             (numAdd a (width w) spaceWidth) ws)"

definition greedyLines :: "arith \<Rightarrow> (string \<Rightarrow> real) \<Rightarrow> real \<Rightarrow> string list \<Rightarrow> string list list" where
  "greedyLines a width spaceWidth ws = greedyFrom a width spaceWidth [] [] 0 ws"

text \<open>The layout of a font size: the greedy lines, and the line height 1.2 times the size.\<close>

definition solutionAt :: "arith \<Rightarrow> (nat \<Rightarrow> string \<Rightarrow> real) \<Rightarrow> string list \<Rightarrow> nat \<Rightarrow> layout" where
  "solutionAt a measureText ws fs =
     \<lparr>fontSize = fs, lines = greedyLines a (measureText fs) (measureText fs '' '') ws,
      lineHeight = numMul a (real fs) double_1_2\<rparr>"

text \<open>
  A font size fits when no word is wider than the usable width and the line count times
  the font size times 1.2 is at most the usable height, as the arithmetic \<open>a\<close> has them.
\<close>

definition fitsAt :: "arith \<Rightarrow> (nat \<Rightarrow> string \<Rightarrow> real) \<Rightarrow> string list \<Rightarrow> nat \<Rightarrow> bool" where
  "fitsAt a measureText ws fs =
     ((\<forall>w \<in> set ws. measureText fs w \<le> maxWidth a) \<and>
      numMul a (real (length (greedyLines a (measureText fs) (measureText fs '' '') ws)))
              (numMul a (real fs) double_1_2)
        \<le> maxHeight a)"

text \<open>The first result that a function gives along a list.\<close>

fun firstSome :: "('x \<Rightarrow> 'y option) \<Rightarrow> 'x list \<Rightarrow> 'y option" where
  "firstSome f [] = None"
| "firstSome f (x # xs) = (case f x of Some y \<Rightarrow> Some y | None \<Rightarrow> firstSome f xs)"

section \<open>Sample data\<close>

text \<open>
  A concrete environment to run the definitions on. \<open>sampleLine\<close> is the line \<^verbatim>\<open>Hi\<close>, the
  emoji U+1F600, \<^verbatim>\<open>yo\<close>, with single spaces between them; its parts are the text before the
  emoji, the image tag of the emoji and the text after it. Every other non-empty text is
  one text run. Every character is 10 units wide, every request fails, every markup
  decodes and every canvas encodes.
\<close>

definition sampleLine :: string where
  "sampleLine = ''Hi '' @ [CHR 0xF0, CHR 0x9F, CHR 0x98, CHR 0x80] @ '' yo''"

definition sampleTag :: string where
  "sampleTag = ''<img class=\"emoji\" src=\"https://twemoji.maxcdn.com/v/14.0.2/svg/1f600.svg\"/>''"

definition sampleEnv :: env where
  "sampleEnv =
     \<lparr>textWidth = (\<lambda>fs t. 10 * real (length t)),
      twemojiParts = (\<lambda>t. if t = sampleLine then [''Hi '', sampleTag, '' yo'']
                           else if t = [] then [] else [t]),
      fetch = (\<lambda>n u. None),
      decode = (\<lambda>m. True),
      encode = (\<lambda>d. True)\<rparr>"

definition sampleContext :: context2d where
  "sampleContext =
     \<lparr>font = DefaultFont, fillStyle = ''#000'', textAlign = ''left'',
      textBaseline = ''alphabetic'', drawn = []\<rparr>"

text \<open>
  Two text measurements for the solver. With \<open>halfWidths\<close> every character is half the font
  size wide. With \<open>fixedWidths\<close> the widths do not depend on the font size: \<^verbatim>\<open>X\<close> and \<^verbatim>\<open>Y\<close>
  measure 460, \<^verbatim>\<open>W\<close> measures 500, \<^verbatim>\<open>p\<close>, \<^verbatim>\<open>q\<close> and \<^verbatim>\<open>r\<close> measure the doubles of 115.4, 118.3
  and 177.1, the space measures 25. The sum of \<^verbatim>\<open>p\<close>, a space, \<^verbatim>\<open>q\<close>, a space and \<^verbatim>\<open>r\<close> is
  below the usable width as an exact sum and above it as the doubles accumulate it.
\<close>

definition halfWidths :: "nat \<Rightarrow> string \<Rightarrow> real" where
  "halfWidths fs w = real fs * real (length w) / 2"

definition fixedWidths :: "nat \<Rightarrow> string \<Rightarrow> real" where
  "fixedWidths fs w =
     (if w = ''X'' \<or> w = ''Y'' then 460
      else if w = ''W'' then 500
      else if w = ''p'' then 4060276539051213 / 2 ^ 45
      else if w = ''q'' then 8324622436217651 / 2 ^ 46
      else if w = ''r'' then 6231152296932147 / 2 ^ 45
      else if w = '' '' then 25
      else 0)"

section \<open>Properties of the arithmetic of doubles\<close>

subsection \<open>Evaluation\<close>

lemma binadeUp_numeral [simp]:
  "binadeUp (numeral k) x = (if x < 2 then 0 else Suc (binadeUp (pred_numeral k) (x / 2)))"
  by (simp add: numeral_eq_Suc)

lemma binadeDown_numeral [simp]:
  "binadeDown (numeral k) x = (if 1 \<le> x then 0 else Suc (binadeDown (pred_numeral k) (x * 2)))"
  by (simp add: numeral_eq_Suc)

lemmas toDouble_eval = toDouble_def ulp_def roundHalfEven_def Let_def

lemma ieee_simps [simp]:
  "numAdd ieee x y = toDouble (x + y)"
  "numSub ieee x y = toDouble (x - y)"
  "numMul ieee x y = toDouble (x * y)"
  by (simp_all add: ieee_def)

lemma maxWidth_ieee: "maxWidth ieee = 8106479329266893 / 2 ^ 44"
  by (simp add: maxWidth_def solverMargin_def canvasWidth_def double_0_05_def toDouble_eval)

lemma maxHeight_ieee: "maxHeight ieee = 8106479329266893 / 2 ^ 44"
  by (simp add: maxHeight_def solverMargin_def canvasWidth_def canvasHeight_def
      double_0_05_def toDouble_eval)

lemma usable_ieee:
  "maxWidth ieee = toDouble usableWidth
   \<and> maxHeight ieee = toDouble usableHeight
   \<and> maxWidth ieee = numMul ieee canvasWidth (numSub ieee 1 (numMul ieee 2 double_0_05))
   \<and> maxHeight ieee = numMul ieee canvasHeight (numSub ieee 1 (numMul ieee 2 double_0_05))"
  by (simp add: maxWidth_ieee maxHeight_ieee usableWidth_def usableHeight_def marginFraction_def
      canvasWidth_def canvasHeight_def double_0_05_def toDouble_eval)

subsection \<open>The rounding error\<close>

lemma binadeUp_le: "1 \<le> x \<Longrightarrow> 2 ^ binadeUp k x \<le> x"
proof (induction k arbitrary: x)
  case 0
  then show ?case by simp
next
  case (Suc k)
  show ?case
  proof (cases "x < 2")
    case True
    with Suc.prems show ?thesis by simp
  next
    case False
    then have "1 \<le> x / 2" by simp
    from Suc.IH [OF this] have "2 ^ binadeUp k (x / 2) \<le> x / 2" .
    with False show ?thesis by simp
  qed
qed

lemma ulp_bounds: "1 \<le> x \<Longrightarrow> 0 < ulp x \<and> ulp x \<le> x / 2 ^ 52"
  using binadeUp_le [of x 1023] by (simp add: ulp_def divide_right_mono)

lemma roundHalfEven_close: "\<bar>of_int (roundHalfEven m) - m\<bar> \<le> 1 / 2"
  unfolding roundHalfEven_def Let_def by (auto simp: abs_if) linarith+

lemma toDouble_close:
  assumes "1 \<le> x"
  shows "\<bar>toDouble x - x\<bar> \<le> x / 2 ^ 53"
proof -
  from assms have u: "0 < ulp x" "ulp x \<le> x / 2 ^ 52" using ulp_bounds by auto
  let ?r = "of_int (roundHalfEven (x / ulp x)) :: real"
  have "\<bar>?r - x / ulp x\<bar> \<le> 1 / 2" by (rule roundHalfEven_close)
  then have "\<bar>?r - x / ulp x\<bar> * ulp x \<le> 1 / 2 * ulp x"
    using u(1) by (simp add: mult_right_mono)
  moreover have "?r * ulp x - x = (?r - x / ulp x) * ulp x"
    using u(1) by (simp add: left_diff_distrib)
  then have "\<bar>?r - x / ulp x\<bar> * ulp x = \<bar>?r * ulp x - x\<bar>"
    using u(1) by (simp add: abs_mult)
  ultimately have "\<bar>?r * ulp x - x\<bar> \<le> ulp x / 2" by simp
  also have "\<dots> \<le> x / 2 ^ 53" using u(2) by simp
  finally have "\<bar>?r * ulp x - x\<bar> \<le> x / 2 ^ 53" .
  moreover have "toDouble x = ?r * ulp x" using assms by (simp add: toDouble_def)
  ultimately show ?thesis by simp
qed

section \<open>Properties of the layout solver\<close>

subsection \<open>The packing loops and the greedy rule\<close>

lemma packWordsFallback_greedy:
  "pushLast (packWordsFallback a width sp ws p) =
     greedyFrom a width sp (linesAcc p) (currentLine p) (currentLineWidth p) ws"
proof (induction ws arbitrary: p)
  case Nil
  show ?case by (simp add: pushLast_def)
next
  case (Cons w ws)
  then show ?case by simp
qed

lemma packWords_no_oversize:
  "\<forall>w \<in> set ws. width w \<le> maxWidth a \<Longrightarrow>
   packWords a width sp ws p = packWordsFallback a width sp ws p"
  by (induction ws arbitrary: p) auto

lemma packWords_canFit:
  "canFitAllWords (packWords a width sp ws p) =
     (canFitAllWords p \<and> (\<forall>w \<in> set ws. width w \<le> maxWidth a))"
  by (induction ws arbitrary: p) auto

lemma concat_greedyFrom:
  "concat (greedyFrom a width sp cl line acc ws) = concat cl @ line @ ws"
  by (induction ws arbitrary: cl line acc) auto

lemma oversize_not_fitsAt:
  assumes "w \<in> set ws" and "maxWidth a < mt fs w"
  shows "\<not> fitsAt a mt ws fs"
proof
  assume "fitsAt a mt ws fs"
  with assms(1) have "mt fs w \<le> maxWidth a" by (simp add: fitsAt_def)
  with assms(2) show False by simp
qed

lemma greedyFrom_one_per_line:
  assumes "\<not> numAdd a acc W \<le> maxWidth a"
    and "\<not> numAdd a (numAdd a W sp) W \<le> maxWidth a"
    and "line \<noteq> []"
  shows "greedyFrom a (\<lambda>w. W) sp cl line acc (replicate n x) = cl @ [line] @ replicate n [x]"
  using assms(1,3)
proof (induction n arbitrary: cl line acc)
  case 0
  then show ?case by simp
next
  case (Suc n)
  have "greedyFrom a (\<lambda>w. W) sp cl line acc (replicate (Suc n) x) =
          greedyFrom a (\<lambda>w. W) sp (cl @ [line]) [x] (numAdd a W sp) (replicate n x)"
    using Suc.prems by simp
  also have "\<dots> = (cl @ [line]) @ [[x]] @ replicate n [x]"
    using assms(2) by (intro Suc.IH) simp_all
  finally show ?case by simp
qed

lemma greedyLines_one_per_line:
  assumes "\<not> numAdd a (numAdd a 0 (numAdd a W sp)) W \<le> maxWidth a"
    and "\<not> numAdd a (numAdd a W sp) W \<le> maxWidth a"
  shows "greedyLines a (\<lambda>w. W) sp (replicate n x) = replicate n [x]"
proof (cases n)
  case 0
  then show ?thesis by (simp add: greedyLines_def)
next
  case (Suc m)
  have "greedyLines a (\<lambda>w. W) sp (replicate (Suc m) x) =
          greedyFrom a (\<lambda>w. W) sp [] [x] (numAdd a 0 (numAdd a W sp)) (replicate m x)"
    by (simp add: greedyLines_def)
  also have "\<dots> = [] @ [[x]] @ replicate m [x]"
    using assms by (intro greedyFrom_one_per_line) simp_all
  finally show ?thesis using Suc by simp
qed

subsection \<open>One iteration, and the loop as a search\<close>

lemma tryFontSize_fitsAt:
  "tryFontSize a mt ws fs = (if fitsAt a mt ws fs then Some (solutionAt a mt ws fs) else None)"
proof (cases "\<forall>w \<in> set ws. mt fs w \<le> maxWidth a")
  case True
  have fit: "canFitAllWords (packWords a (mt fs) (mt fs '' '') ws packingInit)"
    using True by (simp add: packWords_canFit packingInit_def)
  have ls: "pushLast (packWords a (mt fs) (mt fs '' '') ws packingInit)
              = greedyLines a (mt fs) (mt fs '' '') ws"
    using True
    by (simp add: packWords_no_oversize packWordsFallback_greedy greedyLines_def packingInit_def)
  from True fit ls show ?thesis
    by (simp add: tryFontSize_def fitsAt_def solutionAt_def Let_def)
next
  case False
  then have "\<not> canFitAllWords (packWords a (mt fs) (mt fs '' '') ws packingInit)"
    by (simp add: packWords_canFit)
  with False show ?thesis
    by (auto simp: tryFontSize_def fitsAt_def Let_def)
qed

lemma firstSome_tryFontSize:
  "firstSome (tryFontSize a mt ws) xs = map_option (solutionAt a mt ws) (find (fitsAt a mt ws) xs)"
  by (induction xs) (simp_all add: tryFontSize_fitsAt)

lemma fontSizeLoop_firstSome:
  "k \<le> 55 \<Longrightarrow>
   fontSizeLoop a mt ws (120 - 2 * k) =
     firstSome (tryFontSize a mt ws) (map (\<lambda>j. 120 - 2 * j) [k..<55])"
proof (induction "55 - k" arbitrary: k)
  case 0
  then have "k = 55" by simp
  then show ?case by (simp add: fontSizeLoop.simps [of a mt ws 10])
next
  case (Suc n)
  then have lt: "k < 55" and n: "n = 55 - Suc k" and le: "Suc k \<le> 55" by simp_all
  have gt: "10 < 120 - 2 * k" using lt by simp
  have next_size: "120 - 2 * k - 2 = 120 - 2 * Suc k" by simp
  have unfold: "[k..<55] = k # [Suc k..<55]" using lt by (simp add: upt_conv_Cons)
  have "fontSizeLoop a mt ws (120 - 2 * k) =
          (case tryFontSize a mt ws (120 - 2 * k) of
             Some sol \<Rightarrow> Some sol
           | None \<Rightarrow> fontSizeLoop a mt ws (120 - 2 * Suc k))"
    using gt next_size
    by (simp add: fontSizeLoop.simps [of a mt ws "120 - 2 * k"] split: option.splits)
  also have "fontSizeLoop a mt ws (120 - 2 * Suc k) =
               firstSome (tryFontSize a mt ws) (map (\<lambda>j. 120 - 2 * j) [Suc k..<55])"
    using Suc.hyps(1) [OF n le] .
  finally show ?case by (simp add: unfold)
qed

lemma candidatesBelow_eq:
  assumes "k < 55"
  shows "candidatesBelow (120 - 2 * k) = map (\<lambda>j. 120 - 2 * j) [Suc k..<55]"
proof -
  have split: "[0..<55] = [0..<Suc k] @ [Suc k..<55]"
    using assms by (metis Suc_leI le0 upt_add_eq_append le_add_diff_inverse)
  have a: "filter (\<lambda>c. c < 120 - 2 * k) (map (\<lambda>j. 120 - 2 * j) [0..<Suc k]) = []"
    by (auto simp: filter_empty_conv)
  have b: "filter (\<lambda>c. c < 120 - 2 * k) (map (\<lambda>j. 120 - 2 * j) [Suc k..<55])
             = map (\<lambda>j. 120 - 2 * j) [Suc k..<55]"
    by (rule filter_True) auto
  show ?thesis
    unfolding candidatesBelow_def candidateSizes_def
    by (subst split) (simp only: map_append filter_append a b append_Nil)
qed

lemma fontSizeLoop_candidates:
  "fontSizeLoop a mt ws 120 = firstSome (tryFontSize a mt ws) candidateSizes"
  using fontSizeLoop_firstSome [of 0 a mt ws] by (simp add: candidateSizes_def)

lemma fallbackLayout_greedy:
  "fallbackLayout a mt ws =
     \<lparr>fontSize = 10, lines = greedyLines a (mt 10) (mt 10 '' '') ws, lineHeight = 12\<rparr>"
  by (simp add: fallbackLayout_def Let_def packWordsFallback_greedy greedyLines_def
      packingInit_def)

lemma findOptimalFontSize_search:
  "findOptimalFontSize a mt ws =
     (case find (fitsAt a mt ws) candidateSizes of
        Some fs \<Rightarrow> solutionAt a mt ws fs
      | None \<Rightarrow> fallbackLayout a mt ws)"
  by (simp add: findOptimalFontSize_def fontSizeLoop_candidates firstSome_tryFontSize
      split: option.splits)

lemma candidateSizes_list:
  "candidateSizes = [120, 118, 116, 114, 112, 110, 108, 106, 104, 102, 100, 98, 96, 94, 92, 90, 88, 86, 84, 82, 80, 78, 76, 74, 72, 70, 68, 66, 64, 62, 60, 58, 56, 54, 52, 50, 48, 46, 44, 42, 40, 38, 36, 34, 32, 30, 28, 26, 24, 22, 20, 18, 16, 14, 12]"
  by code_simp

lemma candidate_bounds: "fs \<in> set candidateSizes \<Longrightarrow> 12 \<le> fs \<and> fs \<le> 120"
  by (auto simp: candidateSizes_def)

lemma candidatesBelow_120: "candidatesBelow 120 = tl candidateSizes"
  by (simp add: candidatesBelow_def candidateSizes_list)

lemma find_largest_candidate:
  assumes f: "find P candidateSizes = Some fs"
    and mem: "fs' \<in> set candidateSizes" and p: "P fs'"
  shows "fs' \<le> fs"
proof -
  from f obtain i where i: "i < length candidateSizes" "candidateSizes ! i = fs"
    "\<forall>j < i. \<not> P (candidateSizes ! j)"
    by (auto simp: find_Some_iff)
  from mem obtain j where j: "j < length candidateSizes" "candidateSizes ! j = fs'"
    by (auto simp: in_set_conv_nth)
  from i(3) j(2) p have "\<not> j < i" by auto
  moreover have "candidateSizes ! i = 120 - 2 * i" "candidateSizes ! j = 120 - 2 * j"
    using i(1) j(1) by (simp_all add: candidateSizes_def)
  ultimately show ?thesis using i(2) j(2) by simp
qed

lemma tryFontSize_fontSize: "tryFontSize a mt ws fs = Some sol \<Longrightarrow> fontSize sol = fs"
  by (auto simp: tryFontSize_def Let_def split: if_splits)

lemma firstSome_candidate:
  "firstSome (tryFontSize a mt ws) xs = Some sol \<Longrightarrow> fontSize sol \<in> set xs"
  by (induction xs) (auto simp: tryFontSize_fontSize split: option.splits)

subsection \<open>The height test in doubles\<close>

text \<open>
  The line height of a candidate size is within a thousandth of 1.2 times the size. A
  product of it that passes the test of the program is at most the exact usable height:
  when the line count times the size is 384 the line height is one of seven doubles, none
  above 1.2 times the size, and otherwise the product is away from the bound by more than
  the rounding can bridge.
\<close>

lemma double_1_2_bounds:
  "1199 / 1000 \<le> double_1_2 * (1 - 1 / 2 ^ 53)" "double_1_2 * (1 + 1 / 2 ^ 53) \<le> 1203 / 1000"
  by (simp_all add: double_1_2_def)

lemma lineHeight_bounds:
  assumes "12 \<le> fs"
  shows "real fs * (1199 / 1000) \<le> toDouble (real fs * double_1_2)"
    and "toDouble (real fs * double_1_2) \<le> real fs * (1203 / 1000)"
proof -
  let ?x = "real fs * double_1_2"
  have "12 * double_1_2 \<le> ?x" using assms by (simp add: double_1_2_def)
  then have one: "1 \<le> ?x" by (simp add: double_1_2_def)
  have cl: "\<bar>toDouble ?x - ?x\<bar> \<le> ?x / 2 ^ 53" using one by (rule toDouble_close)
  have lo: "?x - ?x / 2 ^ 53 \<le> toDouble ?x" using cl by linarith
  have hi: "toDouble ?x \<le> ?x + ?x / 2 ^ 53" using cl by linarith
  have "real fs * (1199 / 1000) \<le> real fs * (double_1_2 * (1 - 1 / 2 ^ 53))"
    using double_1_2_bounds(1) by (intro mult_left_mono) simp_all
  also have "\<dots> = ?x - ?x / 2 ^ 53" by (simp add: algebra_simps)
  finally show "real fs * (1199 / 1000) \<le> toDouble ?x" using lo by simp
  have "?x + ?x / 2 ^ 53 = real fs * (double_1_2 * (1 + 1 / 2 ^ 53))" by (simp add: algebra_simps)
  also have "\<dots> \<le> real fs * (1203 / 1000)"
    using double_1_2_bounds(2) by (intro mult_left_mono) simp_all
  finally show "toDouble ?x \<le> real fs * (1203 / 1000)" using hi by simp
qed


lemma lineHeight_384:
  assumes "fs \<in> set candidateSizes" and "n * fs = 384"
  shows "real n * toDouble (real fs * double_1_2) \<le> 2304 / 5"
proof -
  from assms have "(fs, n) \<in> {(96, 4), (64, 6), (48, 8), (32, 12), (24, 16), (16, 24), (12, 32)}"
    unfolding candidateSizes_list
    by (elim set_ConsD [elim_format] disjE) (simp_all, presburger+)
  then show ?thesis
    by (elim insertE emptyE) (simp_all add: double_1_2_def toDouble_eval)
qed

lemma height_test_exact:
  assumes mem: "fs \<in> set candidateSizes"
    and test: "numMul ieee (real n) (numMul ieee (real fs) double_1_2) \<le> maxHeight ieee"
  shows "real n * numMul ieee (real fs) double_1_2 \<le> usableHeight"
proof -
  let ?lh = "toDouble (real fs * double_1_2)"
  from mem have fs: "12 \<le> fs" "fs \<le> 120" using candidate_bounds by auto
  have uh: "usableHeight = 2304 / 5"
    by (simp add: usableHeight_def canvasHeight_def marginFraction_def)
  have t: "toDouble (real n * ?lh) \<le> 8106479329266893 / 2 ^ 44"
    using test by (simp add: maxHeight_ieee)
  have lo: "real fs * (1199 / 1000) \<le> ?lh" and hi: "?lh \<le> real fs * (1203 / 1000)"
    using lineHeight_bounds [OF fs(1)] by simp_all
  consider "n * fs \<le> 383" | "n * fs = 384" | "385 \<le> n * fs" by linarith
  then have "real n * ?lh \<le> 2304 / 5"
  proof cases
    case 1
    from 1 have "real (n * fs) \<le> real 383" by (rule of_nat_mono)
    then have prod: "real n * real fs \<le> 383" by simp
    have "real n * ?lh \<le> real n * (real fs * (1203 / 1000))"
      using hi by (intro mult_left_mono) simp_all
    also have "\<dots> = (real n * real fs) * (1203 / 1000)" by simp
    also have "\<dots> \<le> 383 * (1203 / 1000)"
      using prod by (intro mult_right_mono) simp_all
    finally show ?thesis by simp
  next
    case 2
    with mem show ?thesis by (rule lineHeight_384)
  next
    case 3
    from 3 have "real 385 \<le> real (n * fs)" by (rule of_nat_mono)
    then have prod: "385 \<le> real n * real fs" by simp
    have "385 * (1199 / 1000) \<le> (real n * real fs) * (1199 / 1000)"
      using prod by (intro mult_right_mono) simp_all
    also have "\<dots> = real n * (real fs * (1199 / 1000))" by simp
    also have "\<dots> \<le> real n * ?lh" using lo by (intro mult_left_mono) simp_all
    finally have big: "4616 / 10 \<le> real n * ?lh" by simp
    then have one: "1 \<le> real n * ?lh" by simp
    have cl: "\<bar>toDouble (real n * ?lh) - real n * ?lh\<bar> \<le> real n * ?lh / 2 ^ 53"
      using one by (rule toDouble_close)
    have "real n * ?lh / 2 ^ 53 \<le> real n * ?lh / 1000000" using one by (simp add: field_simps)
    with cl have "real n * ?lh - real n * ?lh / 1000000 \<le> toDouble (real n * ?lh)" by linarith
    with big have "461 \<le> toDouble (real n * ?lh)" by linarith
    moreover have "(8106479329266893 / 2 ^ 44 :: real) < 461" by simp
    ultimately have False using t by linarith
    then show ?thesis ..
  qed
  then show ?thesis by (simp add: uh)
qed

subsection \<open>Evaluating the samples\<close>

lemmas sample_eval =
  fitsAt_def greedyLines_def fixedWidths_def halfWidths_def maxWidth_ieee maxHeight_ieee
  double_1_2_def toDouble_eval

subsection \<open>The claims about the solver\<close>

text \<open>
  C1: in every arithmetic the search visits the candidate sizes 120, 118, \<dots>, 12 (the
  \<open>i\<close>-th is \<open>120 - 2 * i\<close>) in that order and returns the layout of the first one that
  fits, that is, at which no word is wider than the usable width and the line count times
  the font size times 1.2 is at most the usable height, the sums, the products and the two
  bounds being those of the arithmetic; the sizes after it play no part in the result;
  the size returned is the largest candidate that fits. When none fits, the result is the
  greedy layout at size 10.
\<close>

theorem findOptimalFontSize_first_fit:
  "findOptimalFontSize a mt ws =
     (case find (fitsAt a mt ws) candidateSizes of
        Some fs \<Rightarrow>
          \<lparr>fontSize = fs, lines = greedyLines a (mt fs) (mt fs '' '') ws,
           lineHeight = numMul a (real fs) double_1_2\<rparr>
      | None \<Rightarrow>
          \<lparr>fontSize = 10, lines = greedyLines a (mt 10) (mt 10 '' '') ws, lineHeight = 12\<rparr>)
   \<and> (\<forall>i < length candidateSizes. candidateSizes ! i = 120 - 2 * i)
   \<and> (\<forall>fs. find (fitsAt a mt ws) candidateSizes = Some fs \<longrightarrow>
         (\<forall>fs' \<in> set candidateSizes. fitsAt a mt ws fs' \<longrightarrow> fs' \<le> fs))"
proof (intro conjI allI impI ballI)
  show "findOptimalFontSize a mt ws =
     (case find (fitsAt a mt ws) candidateSizes of
        Some fs \<Rightarrow>
          \<lparr>fontSize = fs, lines = greedyLines a (mt fs) (mt fs '' '') ws,
           lineHeight = numMul a (real fs) double_1_2\<rparr>
      | None \<Rightarrow>
          \<lparr>fontSize = 10, lines = greedyLines a (mt 10) (mt 10 '' '') ws, lineHeight = 12\<rparr>)"
    by (simp add: findOptimalFontSize_search solutionAt_def fallbackLayout_greedy
        split: option.splits)
next
  fix i assume "i < length candidateSizes"
  then show "candidateSizes ! i = 120 - 2 * i" by (simp add: candidateSizes_def)
next
  fix fs fs'
  assume "find (fitsAt a mt ws) candidateSizes = Some fs"
    and "fs' \<in> set candidateSizes" and "fitsAt a mt ws fs'"
  then show "fs' \<le> fs" by (rule find_largest_candidate)
qed

text \<open>
  An instance in doubles, in which the rounding of the running sum decides: the words
  \<^verbatim>\<open>p\<close>, \<^verbatim>\<open>q\<close>, \<^verbatim>\<open>r\<close> do not share a line, there are four lines, and the first size at
  which four lines fit is 96.
\<close>

theorem findOptimalFontSize_first_fit_witness:
  "findOptimalFontSize ieee fixedWidths [''X'', ''Y'', ''p'', ''q'', ''r''] =
     \<lparr>fontSize = 96, lines = [[''X''], [''Y''], [''p'', ''q''], [''r'']],
      lineHeight = 2026619832316723 / 2 ^ 44\<rparr>"
  using findOptimalFontSize_first_fit
          [of ieee fixedWidths "[''X'', ''Y'', ''p'', ''q'', ''r'']", THEN conjunct1]
  by (simp add: candidateSizes_list sample_eval)

text \<open>
  C2: at a font size at which every word is at most as wide as the usable width, the
  packing loop reads all the words and its lines are those of the greedy rule (a word
  joins the current line if and only if the line is empty or its accumulated width plus
  the word's width is at most the usable width; otherwise the line is closed and the word
  starts the next one). At a font size at which some word is wider than the usable width,
  the iteration accepts nothing, the solver does not return that size, and the loop,
  entered at that size, returns what the search over the smaller candidate sizes returns.
\<close>

theorem packWords_greedy_or_rejected:
  "((\<forall>w \<in> set ws. mt fs w \<le> maxWidth a) \<longrightarrow>
      canFitAllWords (packWords a (mt fs) sp ws packingInit) \<and>
      pushLast (packWords a (mt fs) sp ws packingInit) = greedyLines a (mt fs) sp ws)
   \<and> ((\<exists>w \<in> set ws. maxWidth a < mt fs w) \<longrightarrow>
      tryFontSize a mt ws fs = None \<and>
      (10 < fs \<longrightarrow> fontSize (findOptimalFontSize a mt ws) \<noteq> fs) \<and>
      (fs \<in> set candidateSizes \<longrightarrow>
         fontSizeLoop a mt ws fs =
           map_option (solutionAt a mt ws) (find (fitsAt a mt ws) (candidatesBelow fs))))"
proof (intro conjI impI)
  assume all: "\<forall>w \<in> set ws. mt fs w \<le> maxWidth a"
  then show "canFitAllWords (packWords a (mt fs) sp ws packingInit)"
    by (simp add: packWords_canFit packingInit_def)
  from all show "pushLast (packWords a (mt fs) sp ws packingInit) = greedyLines a (mt fs) sp ws"
    by (simp add: packWords_no_oversize packWordsFallback_greedy greedyLines_def packingInit_def)
next
  assume "\<exists>w \<in> set ws. maxWidth a < mt fs w"
  then obtain w where "w \<in> set ws" "maxWidth a < mt fs w" by blast
  then have nofit: "\<not> fitsAt a mt ws fs" by (rule oversize_not_fitsAt)
  then show none: "tryFontSize a mt ws fs = None" by (simp add: tryFontSize_fitsAt)
  {
    assume gt: "10 < fs"
    show "fontSize (findOptimalFontSize a mt ws) \<noteq> fs"
    proof (cases "find (fitsAt a mt ws) candidateSizes")
      case None
      with gt show ?thesis by (simp add: findOptimalFontSize_search fallbackLayout_greedy)
    next
      case (Some c)
      then have "fitsAt a mt ws c" by (auto simp: find_Some_iff)
      with nofit have "c \<noteq> fs" by auto
      with Some show ?thesis by (simp add: findOptimalFontSize_search solutionAt_def)
    qed
  }
  {
    assume "fs \<in> set candidateSizes"
    then obtain k where k: "k < 55" "fs = 120 - 2 * k" by (auto simp: candidateSizes_def)
    have unfold: "[k..<55] = k # [Suc k..<55]" using k(1) by (simp add: upt_conv_Cons)
    have "fontSizeLoop a mt ws fs =
            firstSome (tryFontSize a mt ws) (map (\<lambda>j. 120 - 2 * j) [k..<55])"
      using k fontSizeLoop_firstSome [of k a mt ws] by simp
    also have "\<dots> = firstSome (tryFontSize a mt ws) (map (\<lambda>j. 120 - 2 * j) [Suc k..<55])"
      using none k(2) by (simp add: unfold)
    also have "\<dots> = map_option (solutionAt a mt ws) (find (fitsAt a mt ws) (candidatesBelow fs))"
      using k by (simp add: firstSome_tryFontSize candidatesBelow_eq)
    finally show "fontSizeLoop a mt ws fs =
           map_option (solutionAt a mt ws) (find (fitsAt a mt ws) (candidatesBelow fs))" .
  }
qed

theorem packWords_greedy_or_rejected_witness:
  "canFitAllWords (packWords ieee (fixedWidths 120) 25 [''p'', ''q'', ''r''] packingInit)
   \<and> pushLast (packWords ieee (fixedWidths 120) 25 [''p'', ''q'', ''r''] packingInit)
       = [[''p'', ''q''], [''r'']]
   \<and> tryFontSize ieee halfWidths [''stickers''] 120 = None
   \<and> fontSize (findOptimalFontSize ieee halfWidths [''stickers'']) \<noteq> 120
   \<and> fontSizeLoop ieee halfWidths [''stickers''] 120 =
       Some \<lparr>fontSize = 114, lines = [[''stickers'']], lineHeight = 4813222101752217 / 2 ^ 45\<rparr>"
  using packWords_greedy_or_rejected
          [of "[''p'', ''q'', ''r'']" fixedWidths 120 ieee 25, THEN conjunct1]
        packWords_greedy_or_rejected
          [of "[''stickers'']" halfWidths 120 ieee 0, THEN conjunct2]
  by (simp add: candidatesBelow_120 candidateSizes_list solutionAt_def sample_eval)

text \<open>
  C3: when some word is wider than the usable width at every font size from 10 to 120,
  the solver returns the layout at the minimum font size 10 with line height 12, its lines
  being those of the greedy rule alone (no word is rejected for its width); no condition
  on the height of that layout is attached.
\<close>

theorem findOptimalFontSize_oversized_word:
  assumes "w \<in> set ws"
    and "\<forall>fs. 10 \<le> fs \<and> fs \<le> 120 \<longrightarrow> maxWidth a < mt fs w"
  shows "findOptimalFontSize a mt ws =
           \<lparr>fontSize = 10, lines = greedyLines a (mt 10) (mt 10 '' '') ws, lineHeight = 12\<rparr>"
proof -
  have "\<not> fitsAt a mt ws fs" if "fs \<in> set candidateSizes" for fs
  proof -
    from that have "10 \<le> fs \<and> fs \<le> 120" by (auto simp: candidateSizes_def)
    with assms(2) have "maxWidth a < mt fs w" by blast
    with assms(1) show ?thesis by (rule oversize_not_fitsAt)
  qed
  then have "find (fitsAt a mt ws) candidateSizes = None"
    by (simp add: find_None_iff)
  then show ?thesis
    by (simp add: findOptimalFontSize_search fallbackLayout_greedy)
qed

text \<open>
  Two instances in doubles: one in which the rounding of the running sum separates \<^verbatim>\<open>q\<close>
  and \<^verbatim>\<open>r\<close>, and one in which the layout returned overflows, 39 words of width 500 getting
  39 lines of height 12, more than the usable height.
\<close>

theorem findOptimalFontSize_oversized_word_witness:
  "findOptimalFontSize ieee fixedWidths [''W'', ''p'', ''q'', ''r''] =
     \<lparr>fontSize = 10, lines = [[''W''], [''p'', ''q''], [''r'']], lineHeight = 12\<rparr>
   \<and> findOptimalFontSize ieee (\<lambda>fs w. 50 * real fs) (replicate 39 ''wide'') =
     \<lparr>fontSize = 10, lines = replicate 39 [''wide''], lineHeight = 12\<rparr>
   \<and> usableHeight < real (length (replicate 39 [''wide''])) * 12"
proof (intro conjI)
  have wide: "\<forall>fs. 10 \<le> fs \<and> fs \<le> 120 \<longrightarrow> maxWidth ieee < fixedWidths fs ''W''"
    by (simp add: fixedWidths_def maxWidth_ieee)
  have "greedyLines ieee (fixedWidths 10) (fixedWidths 10 '' '') [''W'', ''p'', ''q'', ''r'']
          = [[''W''], [''p'', ''q''], [''r'']]"
    by (simp add: sample_eval)
  with findOptimalFontSize_oversized_word
         [of "''W''" "[''W'', ''p'', ''q'', ''r'']" ieee fixedWidths] wide
  show "findOptimalFontSize ieee fixedWidths [''W'', ''p'', ''q'', ''r''] =
     \<lparr>fontSize = 10, lines = [[''W''], [''p'', ''q''], [''r'']], lineHeight = 12\<rparr>"
    by simp
next
  have wide: "\<forall>fs. 10 \<le> fs \<and> fs \<le> 120 \<longrightarrow> maxWidth ieee < 50 * real fs"
  proof (intro allI impI)
    fix fs :: nat
    assume "10 \<le> fs \<and> fs \<le> 120"
    then have "500 \<le> 50 * real fs" by simp
    then show "maxWidth ieee < 50 * real fs" by (simp add: maxWidth_ieee)
  qed
  have "greedyLines ieee (\<lambda>w. 500) 500 (replicate 39 ''wide'') = replicate 39 [''wide'']"
    by (rule greedyLines_one_per_line) (simp_all add: maxWidth_ieee toDouble_eval)
  with findOptimalFontSize_oversized_word
         [of "''wide''" "replicate 39 ''wide''" ieee "\<lambda>fs w. 50 * real fs"] wide
  show "findOptimalFontSize ieee (\<lambda>fs w. 50 * real fs) (replicate 39 ''wide'') =
     \<lparr>fontSize = 10, lines = replicate 39 [''wide''], lineHeight = 12\<rparr>"
    by simp
next
  show "usableHeight < real (length (replicate 39 [''wide''])) * 12"
    by (simp add: usableHeight_def canvasHeight_def marginFraction_def)
qed

text \<open>
  C4: for every word list, the lines of the layout that the solver returns, concatenated
  in order, are the word list itself, on the accepted path and on the fallback path.
\<close>

theorem findOptimalFontSize_concat_lines: "concat (lines (findOptimalFontSize a mt ws)) = ws"
proof (cases "find (fitsAt a mt ws) candidateSizes")
  case None
  then show ?thesis
    by (simp add: findOptimalFontSize_search fallbackLayout_greedy greedyLines_def
        concat_greedyFrom)
next
  case (Some fs)
  then show ?thesis
    by (simp add: findOptimalFontSize_search solutionAt_def greedyLines_def concat_greedyFrom)
qed

text \<open>
  C5: in every layout that the solver returns, computing in doubles, the line count times
  the line height is at most the usable height \<open>canvasHeight * (1 - 2 * marginFraction)\<close>, or
  the font size is the minimum 10.
\<close>

theorem findOptimalFontSize_height_or_minimum:
  "real (length (lines (findOptimalFontSize ieee mt ws))) * lineHeight (findOptimalFontSize ieee mt ws)
     \<le> usableHeight
   \<or> fontSize (findOptimalFontSize ieee mt ws) = 10"
proof (cases "find (fitsAt ieee mt ws) candidateSizes")
  case None
  then show ?thesis
    by (simp add: findOptimalFontSize_search fallbackLayout_greedy)
next
  case (Some fs)
  then have fit: "fitsAt ieee mt ws fs" and mem: "fs \<in> set candidateSizes"
    by (auto simp: find_Some_iff)
  let ?n = "length (greedyLines ieee (mt fs) (mt fs '' '') ws)"
  from fit have "numMul ieee (real ?n) (numMul ieee (real fs) double_1_2) \<le> maxHeight ieee"
    by (simp only: fitsAt_def)
  with mem have "real ?n * numMul ieee (real fs) double_1_2 \<le> usableHeight"
    by (rule height_test_exact)
  with Some show ?thesis
    by (simp add: findOptimalFontSize_search solutionAt_def)
qed

text \<open>
  C9: the search is a total function of the arithmetic, the measurement function and the
  word list (the \<^theory_text>\<open>termination\<close> proof of \<open>fontSizeLoop\<close>: the font size is the
  measure, it is above 10 in every iteration and the next iteration has it less 2; the two
  packing loops are structural recursions over the word list). Its iterations are those
  of the 55 sizes \<open>120 - 2 * i\<close>, all above 10, in this order, up to the first one that
  returns a layout; when none does, the fallback reads the word list once and returns a
  layout of size 10. The font size of the layout returned is between 10 and 120
  inclusive.
\<close>

theorem findOptimalFontSize_descent:
  "findOptimalFontSize a mt ws =
     (case firstSome (tryFontSize a mt ws) candidateSizes of
        Some sol \<Rightarrow> sol
      | None \<Rightarrow> fallbackLayout a mt ws)
   \<and> length candidateSizes = 55
   \<and> (\<forall>i < 55. candidateSizes ! i = 120 - 2 * i \<and> 10 < candidateSizes ! i)
   \<and> fontSize (fallbackLayout a mt ws) = 10
   \<and> concat (lines (fallbackLayout a mt ws)) = ws
   \<and> 10 \<le> fontSize (findOptimalFontSize a mt ws)
   \<and> fontSize (findOptimalFontSize a mt ws) \<le> 120"
proof (intro conjI allI impI)
  show eq: "findOptimalFontSize a mt ws =
     (case firstSome (tryFontSize a mt ws) candidateSizes of
        Some sol \<Rightarrow> sol
      | None \<Rightarrow> fallbackLayout a mt ws)"
    by (simp add: findOptimalFontSize_def fontSizeLoop_candidates)
  show "length candidateSizes = 55" by (simp add: candidateSizes_def)
  show fb: "fontSize (fallbackLayout a mt ws) = 10" by (simp add: fallbackLayout_greedy)
  show "concat (lines (fallbackLayout a mt ws)) = ws"
    by (simp add: fallbackLayout_greedy greedyLines_def concat_greedyFrom)
  have range: "10 \<le> fontSize (findOptimalFontSize a mt ws)
      \<and> fontSize (findOptimalFontSize a mt ws) \<le> 120"
  proof (cases "firstSome (tryFontSize a mt ws) candidateSizes")
    case None
    with eq fb show ?thesis by simp
  next
    case (Some sol)
    then have "fontSize sol \<in> set candidateSizes" by (rule firstSome_candidate)
    then have "12 \<le> fontSize sol \<and> fontSize sol \<le> 120" by (rule candidate_bounds)
    with eq Some show ?thesis by simp
  qed
  from range show "10 \<le> fontSize (findOptimalFontSize a mt ws)" ..
  from range show "fontSize (findOptimalFontSize a mt ws) \<le> 120" ..
next
  fix i :: nat
  assume "i < 55"
  then show "candidateSizes ! i = 120 - 2 * i" by (simp add: candidateSizes_def)
next
  fix i :: nat
  assume "i < 55"
  then show "10 < candidateSizes ! i" by (simp add: candidateSizes_def)
qed

theorem findOptimalFontSize_descent_witness:
  "findOptimalFontSize ieee halfWidths [''stickers''] =
     \<lparr>fontSize = 114, lines = [[''stickers'']], lineHeight = 4813222101752217 / 2 ^ 45\<rparr>"
  using findOptimalFontSize_descent [of ieee halfWidths "[''stickers'']", THEN conjunct1]
  by (simp add: candidateSizes_list tryFontSize_def packingInit_def pushLast_def Let_def
      sample_eval)

section \<open>Properties of the line renderer\<close>

lemma drawParts_append:
  "drawParts e y fs s (ps @ qs) = drawParts e y fs (drawParts e y fs s ps) qs"
  by (induction ps arbitrary: s) auto

text \<open>A tag whose glyph cannot be fetched or decoded takes the \<^verbatim>\<open>catch\<close> block.\<close>

lemma drawPart_failure:
  assumes "startsWith part ''<img''" and "matchSrc part = Some url"
    and "fetch e (requests s) url = None \<or>
         (\<exists>body. fetch e (requests s) url = Some body
                 \<and> \<not> decode e (processSVG body (emojiSizeOf fs)))"
  shows "drawPart e y fs s part = drawPlaceholder y fs (s\<lparr>requests := Suc (requests s)\<rparr>)"
  using assms by (auto simp: drawPart_def Let_def)

lemma drawPart_cursor_mono:
  assumes "\<forall>t. 0 \<le> textWidth e fs t"
  shows "cursorX s \<le> cursorX (drawPart e y fs s part)"
proof -
  have "0 \<le> textWidth e fs part" using assms by simp
  then show ?thesis
    by (auto simp: drawPart_def drawPlaceholder_def Let_def split: option.splits)
qed

lemma drawParts_cursor_mono:
  assumes "\<forall>t. 0 \<le> textWidth e fs t"
  shows "cursorX s \<le> cursorX (drawParts e y fs s ps)"
proof (induction ps arbitrary: s)
  case Nil
  show ?case by simp
next
  case (Cons p ps)
  have "cursorX s \<le> cursorX (drawPart e y fs s p)"
    using assms by (rule drawPart_cursor_mono)
  also have "\<dots> \<le> cursorX (drawParts e y fs (drawPart e y fs s p) ps)"
    by (rule Cons.IH)
  finally show ?case by simp
qed

text \<open>
  C6: let the parts of a line be \<open>pre\<close>, then an image tag with a source, then \<open>post\<close>, and
  let the fetch or the decoding of that glyph fail in the state \<open>s\<close> reached after \<open>pre\<close>.
  Then the step for the tag moves the cursor by 0.8 times the font size and draws exactly
  one more thing, the box character at the cursor and the baseline \<open>y\<close> in the text font;
  the renderer goes on with all of \<open>post\<close> from there and returns; and when no text
  measures negative, the cursor it returns is at least the start plus 0.8 times the font
  size.
\<close>

theorem drawTextWithEmoji_glyph_failure:
  assumes parts: "twemojiParts e text = pre @ part # post"
    and tag: "startsWith part ''<img''"
    and src: "matchSrc part = Some url"
    and s: "s = drawParts e y fs \<lparr>cursorX = x, ctx = c, requests = n\<rparr> pre"
    and fail: "fetch e (requests s) url = None \<or>
         (\<exists>body. fetch e (requests s) url = Some body
                 \<and> \<not> decode e (processSVG body (emojiSizeOf fs)))"
  shows "cursorX (drawPart e y fs s part) = cursorX s + 0.8 * real fs
    \<and> drawn (ctx (drawPart e y fs s part)) =
        drawn (ctx s) @ [FillText boxGlyph (cursorX s) y (BoldArialNarrow fs) (fillStyle (ctx s))]
    \<and> drawTextWithEmoji e c n text x y fs = drawParts e y fs (drawPart e y fs s part) post
    \<and> ((\<forall>t. 0 \<le> textWidth e fs t) \<longrightarrow>
         x + 0.8 * real fs \<le> cursorX (drawTextWithEmoji e c n text x y fs))"
proof -
  have step: "drawPart e y fs s part = drawPlaceholder y fs (s\<lparr>requests := Suc (requests s)\<rparr>)"
    using tag src fail by (rule drawPart_failure)
  have cur: "cursorX (drawPart e y fs s part) = cursorX s + 0.8 * real fs"
    by (simp add: step drawPlaceholder_def)
  have dr: "drawn (ctx (drawPart e y fs s part)) =
        drawn (ctx s) @ [FillText boxGlyph (cursorX s) y (BoldArialNarrow fs) (fillStyle (ctx s))]"
    by (simp add: step drawPlaceholder_def)
  have run: "drawTextWithEmoji e c n text x y fs = drawParts e y fs (drawPart e y fs s part) post"
    by (simp add: drawTextWithEmoji_def parts drawParts_append s)
  have adv: "x + 0.8 * real fs \<le> cursorX (drawTextWithEmoji e c n text x y fs)"
    if nonneg: "\<forall>t. 0 \<le> textWidth e fs t"
  proof -
    have "x \<le> cursorX s"
      unfolding s
      using drawParts_cursor_mono [OF nonneg, of "\<lparr>cursorX = x, ctx = c, requests = n\<rparr>" y pre]
      by simp
    then have "x + 0.8 * real fs \<le> cursorX (drawPart e y fs s part)" by (simp add: cur)
    also have "\<dots> \<le> cursorX (drawParts e y fs (drawPart e y fs s part) post)"
      using nonneg by (rule drawParts_cursor_mono)
    finally show ?thesis by (simp add: run)
  qed
  from cur dr run adv show ?thesis by blast
qed

theorem drawTextWithEmoji_glyph_failure_witness:
  "cursorX (drawTextWithEmoji sampleEnv sampleContext 0 sampleLine 5 30 20) = 81
   \<and> drawn (ctx (drawTextWithEmoji sampleEnv sampleContext 0 sampleLine 5 30 20)) =
      [FillText ''Hi '' 5 30 (BoldArialNarrow 20) ''#000'',
       FillText boxGlyph 35 30 (BoldArialNarrow 20) ''#000'',
       FillText '' yo'' 51 30 (BoldArialNarrow 20) ''#000'']"
  using drawTextWithEmoji_glyph_failure
          [of sampleEnv sampleLine "[''Hi '']" sampleTag "['' yo'']"
              "''https://twemoji.maxcdn.com/v/14.0.2/svg/1f600.svg''" _ 30 20 5 sampleContext 0,
           OF _ _ _ refl]
  by (simp add: sampleEnv_def sampleContext_def sampleTag_def startsWith_def Let_def
      drawPart_def drawPlaceholder_def)

text \<open>
  C10: when no text measures negative, the cursor that the line renderer returns is at
  least the start position \<open>x\<close>, for every line text, start position and font size.
\<close>

theorem drawTextWithEmoji_cursor_monotone:
  assumes "\<forall>t. 0 \<le> textWidth e fs t"
  shows "x \<le> cursorX (drawTextWithEmoji e c n text x y fs)"
  using drawParts_cursor_mono [OF assms, of "\<lparr>cursorX = x, ctx = c, requests = n\<rparr>"]
  by (simp add: drawTextWithEmoji_def)

theorem drawTextWithEmoji_cursor_monotone_witness:
  "(5::real) \<le> cursorX (drawTextWithEmoji sampleEnv sampleContext 0 sampleLine 5 30 20)"
  using drawTextWithEmoji_cursor_monotone [of sampleEnv 20 5 sampleContext 0 sampleLine 30]
  by (simp add: sampleEnv_def)

section \<open>Properties of the glyph markup\<close>

lemma startsWith_decomp: "startsWith s pat \<Longrightarrow> s = pat @ drop (length pat) s"
  by (metis append_take_drop_id startsWith_def)

lemma includesStr_iff: "includesStr s pat \<longleftrightarrow> (\<exists>pre post. s = pre @ pat @ post)"
proof (induction s)
  case Nil
  show ?case by auto
next
  case (Cons c cs)
  show ?case
  proof
    assume "includesStr (c # cs) pat"
    then consider "startsWith (c # cs) pat" | "includesStr cs pat" by auto
    then show "\<exists>pre post. c # cs = pre @ pat @ post"
    proof cases
      case 1
      then have "c # cs = [] @ pat @ drop (length pat) (c # cs)"
        using startsWith_decomp by fastforce
      then show ?thesis by blast
    next
      case 2
      with Cons.IH obtain pre post where "cs = pre @ pat @ post" by blast
      then have "c # cs = (c # pre) @ pat @ post" by simp
      then show ?thesis by blast
    qed
  next
    assume "\<exists>pre post. c # cs = pre @ pat @ post"
    then obtain pre post where eq: "c # cs = pre @ pat @ post" by blast
    show "includesStr (c # cs) pat"
    proof (cases pre)
      case Nil
      with eq have "startsWith (c # cs) pat" by (simp add: startsWith_def)
      then show ?thesis by simp
    next
      case (Cons d pre')
      with eq have "cs = pre' @ pat @ post" by simp
      with Cons.IH have "includesStr cs pat" by blast
      then show ?thesis by simp
    qed
  qed
qed

lemma includesStr_embedded:
  assumes "includesStr x pat"
  shows "includesStr (pre @ x @ post) pat"
proof -
  from assms obtain a b where "x = a @ pat @ b" by (auto simp: includesStr_iff)
  then have "pre @ x @ post = (pre @ a) @ pat @ (b @ post)" by simp
  then show ?thesis unfolding includesStr_iff by blast
qed

lemma replaceFirst_absent: "\<not> includesStr s pat \<Longrightarrow> replaceFirst s pat rep = s"
  by (induction s) auto

text \<open>\<open>replaceFirst\<close> rewrites the leftmost occurrence.\<close>

lemma replaceFirst_first:
  "includesStr s pat \<Longrightarrow>
   \<exists>pre post. s = pre @ pat @ post
     \<and> (\<forall>pre' post'. s = pre' @ pat @ post' \<longrightarrow> length pre \<le> length pre')
     \<and> replaceFirst s pat rep = pre @ rep @ post"
proof (induction s)
  case Nil
  then show ?case by auto
next
  case (Cons c cs)
  show ?case
  proof (cases "startsWith (c # cs) pat")
    case True
    then have "c # cs = [] @ pat @ drop (length pat) (c # cs)"
      using startsWith_decomp by fastforce
    moreover have "replaceFirst (c # cs) pat rep = [] @ rep @ drop (length pat) (c # cs)"
      using True by simp
    ultimately show ?thesis by (metis list.size(3) zero_le)
  next
    case False
    with Cons.prems have "includesStr cs pat" by simp
    with Cons.IH obtain pre post where p: "cs = pre @ pat @ post"
      "\<forall>pre' post'. cs = pre' @ pat @ post' \<longrightarrow> length pre \<le> length pre'"
      "replaceFirst cs pat rep = pre @ rep @ post" by blast
    have a: "c # cs = (c # pre) @ pat @ post" using p(1) by simp
    have b: "replaceFirst (c # cs) pat rep = (c # pre) @ rep @ post"
      using False p(3) by simp
    have c: "length (c # pre) \<le> length pre'" if eq: "c # cs = pre' @ pat @ post'" for pre' post'
    proof (cases pre')
      case Nil
      with eq have "startsWith (c # cs) pat" by (simp add: startsWith_def)
      with False show ?thesis by simp
    next
      case (Cons d pre'')
      with eq have "cs = pre'' @ pat @ post'" by simp
      with p(2) have "length pre \<le> length pre''" by blast
      with Cons show ?thesis by simp
    qed
    from a b c show ?thesis by blast
  qed
qed

text \<open>
  C8, as stated, fails: a markup that has a \<^verbatim>\<open>width\<close> attribute and no \<^verbatim>\<open>height\<close> attribute
  is returned as it is, so the output of the preprocessing does not contain both.
\<close>

theorem processSVG_height_missing:
  "\<not> (includesStr (processSVG ''<svg width=\"36\" viewBox=\"0 0 36 36\"></svg>'' 32) ''width=''
      \<and> includesStr (processSVG ''<svg width=\"36\" viewBox=\"0 0 36 36\"></svg>'' 32) ''height='')"
  by (simp add: processSVG_def startsWith_def)

text \<open>
  C8, amended: when the markup contains neither \<^verbatim>\<open>width=\<close> nor \<^verbatim>\<open>height=\<close> anywhere and
  contains \<^verbatim>\<open><svg\<close>, the preprocessing inserts \<^verbatim>\<open>width="n" height="n"\<close>, with \<open>n\<close> the given
  size in decimal, right after the leftmost \<^verbatim>\<open><svg\<close>, and its output contains both
  attributes; when the markup contains \<^verbatim>\<open>width=\<close> or \<^verbatim>\<open>height=\<close> somewhere, or no \<^verbatim>\<open><svg\<close>, it
  is returned unchanged.
\<close>

theorem processSVG_injects_when_absent:
  "(\<not> includesStr s ''width='' \<and> \<not> includesStr s ''height='' \<and> includesStr s ''<svg'' \<longrightarrow>
      (\<exists>pre post. s = pre @ ''<svg'' @ post
         \<and> (\<forall>pre' post'. s = pre' @ ''<svg'' @ post' \<longrightarrow> length pre \<le> length pre')
         \<and> processSVG s n =
             pre @ ''<svg width=\"'' @ showNat n @ ''\" height=\"'' @ showNat n @ ''\"'' @ post)
      \<and> includesStr (processSVG s n) (''width=\"'' @ showNat n @ ''\"'')
      \<and> includesStr (processSVG s n) (''height=\"'' @ showNat n @ ''\"''))
   \<and> (includesStr s ''width='' \<or> includesStr s ''height='' \<or> \<not> includesStr s ''<svg'' \<longrightarrow>
        processSVG s n = s)"
proof (intro conjI impI)
  assume a: "\<not> includesStr s ''width='' \<and> \<not> includesStr s ''height='' \<and> includesStr s ''<svg''"
  let ?rep = "''<svg width=\"'' @ showNat n @ ''\" height=\"'' @ showNat n @ ''\"''"
  from a have p: "processSVG s n = replaceFirst s ''<svg'' ?rep"
    by (simp add: processSVG_def)
  from a obtain pre post where q: "s = pre @ ''<svg'' @ post"
    "\<forall>pre' post'. s = pre' @ ''<svg'' @ post' \<longrightarrow> length pre \<le> length pre'"
    "replaceFirst s ''<svg'' ?rep = pre @ ?rep @ post"
    using replaceFirst_first [of s "''<svg''" ?rep] by blast
  from q p show "\<exists>pre post. s = pre @ ''<svg'' @ post
         \<and> (\<forall>pre' post'. s = pre' @ ''<svg'' @ post' \<longrightarrow> length pre \<le> length pre')
         \<and> processSVG s n =
             pre @ ''<svg width=\"'' @ showNat n @ ''\" height=\"'' @ showNat n @ ''\"'' @ post"
    by auto
  have w: "includesStr ?rep (''width=\"'' @ showNat n @ ''\"'')"
    unfolding includesStr_iff
    by (rule exI [of _ "''<svg ''"], rule exI [of _ "'' height=\"'' @ showNat n @ ''\"''"]) simp
  have h: "includesStr ?rep (''height=\"'' @ showNat n @ ''\"'')"
    unfolding includesStr_iff
    by (rule exI [of _ "''<svg width=\"'' @ showNat n @ ''\" ''"], rule exI [of _ "[]"]) simp
  from w show "includesStr (processSVG s n) (''width=\"'' @ showNat n @ ''\"'')"
    unfolding p q(3) by (rule includesStr_embedded)
  from h show "includesStr (processSVG s n) (''height=\"'' @ showNat n @ ''\"'')"
    unfolding p q(3) by (rule includesStr_embedded)
next
  assume a: "includesStr s ''width='' \<or> includesStr s ''height='' \<or> \<not> includesStr s ''<svg''"
  show "processSVG s n = s"
  proof (cases "\<not> includesStr s ''width='' \<and> \<not> includesStr s ''height=''")
    case True
    with a have "\<not> includesStr s ''<svg''" by blast
    with True show ?thesis by (simp add: processSVG_def replaceFirst_absent)
  next
    case False
    then show ?thesis by (auto simp: processSVG_def)
  qed
qed

theorem processSVG_injects_when_absent_witness:
  "includesStr (processSVG ''<svg viewBox=\"0 0 36 36\"></svg>'' 32) ''width=\"32\"''
   \<and> includesStr (processSVG ''<svg viewBox=\"0 0 36 36\"></svg>'' 32) ''height=\"32\"''
   \<and> processSVG ''<svg width=\"36\" viewBox=\"0 0 36 36\"></svg>'' 32
       = ''<svg width=\"36\" viewBox=\"0 0 36 36\"></svg>''"
  using processSVG_injects_when_absent
          [of "''<svg viewBox=\"0 0 36 36\"></svg>''" 32, THEN conjunct1]
        processSVG_injects_when_absent
          [of "''<svg width=\"36\" viewBox=\"0 0 36 36\"></svg>''" 32, THEN conjunct2]
  by (simp add: startsWith_def showNat.simps)

section \<open>Properties of the compositor\<close>

text \<open>The split never yields the empty list, so the guard on \<^verbatim>\<open>words.length\<close> never fires.\<close>

lemma trim_spaces: "trim ''   '' = []"
  by (simp add: trim_def trimStart.simps trimEnd.simps spaceAt_def spaceAtEnd_def isSpace_def)

lemma trim_empty: "trim [] = []"
  by (simp add: trim_def trimStart.simps trimEnd.simps spaceAt_def spaceAtEnd_def)

lemma splitAux_nonempty: "splitAux cur s \<noteq> []"
  by (induction cur s rule: splitAux.induct) auto

lemma createSticker_never_NoOp: "createSticker e text \<noteq> NoOp"
  by (simp add: createSticker_def Let_def splitWhitespace_def splitAux_nonempty)

text \<open>
  C7 fails on the program. The text of three spaces is trimmed to the empty string, whose
  split is the one empty word, not the empty list: \<^verbatim>\<open>createSticker\<close> does not return early
  and goes on to the layout, the drawing and the encoding; and the \<^verbatim>\<open>/mkstr\<close> command sent
  in reply to a message of three spaces calls \<^verbatim>\<open>createSticker\<close> with that text.
\<close>

theorem createSticker_whitespace_not_rejected:
  "splitWhitespace (trim ''   '') = ['''']
   \<and> createSticker e ''   '' \<noteq> NoOp
   \<and> handleMkstr e ''/mkstr'' (Some \<lparr>conversation = Some ''   '', extendedText = None\<rparr>)
       = createSticker e ''   ''
   \<and> createSticker sampleEnv ''   '' = SendSticker [FillRect ''#fff'' 0 0 512 512]"
proof (intro conjI)
  show "splitWhitespace (trim ''   '') = ['''']"
    by (simp add: trim_spaces splitWhitespace_def)
  show "createSticker e ''   '' \<noteq> NoOp"
    by (rule createSticker_never_NoOp)
  show "handleMkstr e ''/mkstr'' (Some \<lparr>conversation = Some ''   '', extendedText = None\<rparr>)
       = createSticker e ''   ''"
    by (simp add: handleMkstr_def Let_def trim_empty startsWith_def orElse_def truthy_def)
  have "tryFontSize ieee (textWidth sampleEnv) [''''] 120 =
          Some \<lparr>fontSize = 120, lines = [['''']], lineHeight = 144\<rparr>"
    by (simp add: tryFontSize_def Let_def sampleEnv_def packingInit_def pushLast_def
        maxWidth_ieee maxHeight_ieee double_1_2_def toDouble_eval)
  then have "findOptimalFontSize ieee (textWidth sampleEnv) [''''] =
          \<lparr>fontSize = 120, lines = [['''']], lineHeight = 144\<rparr>"
    by (simp add: findOptimalFontSize_def fontSizeLoop.simps [of _ _ _ 120])
  then show "createSticker sampleEnv ''   '' = SendSticker [FillRect ''#fff'' 0 0 512 512]"
    by (simp add: createSticker_def Let_def trim_spaces splitWhitespace_def
        drawTextWithEmoji_def sampleEnv_def sampleLine_def canvasWidth_def canvasHeight_def)
qed

end
